theory Spec2Isabelle
  imports Main "HOL-Library.AList" "HOL-Library.Word"
begin

section \<open>JavaScript values\<close>

text \<open>
  The values that flow through \<^verbatim>\<open>runMachineAsScript\<close> (src/index.js): the caller's
  options, the object \<^verbatim>\<open>yargs.argv\<close>, the examples of the declared inputs, the exit
  descriptors and the values handed to the exit handlers.

  \<^item> An object is the list of its own enumerable properties in enumeration order; its
    keys are distinct. Assigning \<^verbatim>\<open>o[k] = v\<close> is \<open>AList.update k v\<close> (the value is
    replaced in place, a new key goes to the end) and \<^verbatim>\<open>delete o[k]\<close> is
    \<open>AList.delete k\<close>. Keys that look like array indices, which JavaScript enumerates
    first, are outside the model.
  \<^item> A number is one of two things. \<open>Num w\<close> is an integer from \<open>- 2^53\<close> to
    \<open>2^53 - 1\<close>, held in a 54-bit word that is read signed (\<open>sint w\<close>): these are
    integers JavaScript prints digit for digit, and \<open>2^53 - 1\<close> is lodash's
    \<^verbatim>\<open>MAX_SAFE_INTEGER\<close>. Every other number (a fraction, an integer outside that
    range, \<^verbatim>\<open>NaN\<close>, an infinity) is \<open>NumOther s\<close>, where \<open>s\<close> is the text
    JavaScript prints for it: \<^verbatim>\<open>1.5\<close>, \<^verbatim>\<open>1152921504606847000\<close> for \<open>2^60\<close>,
    \<^verbatim>\<open>1e+21\<close>, \<^verbatim>\<open>NaN\<close>, \<^verbatim>\<open>Infinity\<close>.
  \<^item> A function is identified by its source text, which is also what
    \<^verbatim>\<open>fn + ''\<close> evaluates to.
\<close>

datatype jsval =
    Undefined
  | Null
  | Bool bool
  | Num "54 word"
  | NumOther string
  | Str string
  | Arr "jsval list"
  | Obj "(string \<times> jsval) list"
  | Fn string

text \<open>What the code throws: \<^verbatim>\<open>new Error(message)\<close>, or the \<^verbatim>\<open>TypeError\<close> the
  language raises when a property of \<^verbatim>\<open>undefined\<close> or \<^verbatim>\<open>null\<close> is read.\<close>

datatype error = Error string | TypeError

text \<open>Truthiness, as tested by \<^verbatim>\<open>!x\<close>, \<^verbatim>\<open>x || y\<close> and \<^verbatim>\<open>x ? a : b\<close>.\<close>

fun truthy :: "jsval \<Rightarrow> bool" where
  "truthy Undefined = False"
| "truthy Null = False"
| "truthy (Bool b) = b"
| "truthy (Num w) = (w \<noteq> 0)"
| "truthy (NumOther s) = (s \<noteq> ''NaN'')"
| "truthy (Str s) = (s \<noteq> [])"
| "truthy (Arr xs) = True"
| "truthy (Obj kvs) = True"
| "truthy (Fn src) = True"

text \<open>Reading an own property of an object: \<^verbatim>\<open>undefined\<close> when the key is missing.\<close>

definition lookup :: "(string \<times> jsval) list \<Rightarrow> string \<Rightarrow> jsval" where
  "lookup kvs k = (case map_of kvs k of None \<Rightarrow> Undefined | Some v \<Rightarrow> v)"

text \<open>
  The property read \<^verbatim>\<open>x.k\<close>, for the keys the code reads (\<^verbatim>\<open>machine\<close>,
  \<^verbatim>\<open>envVarNamespace\<close>, \<^verbatim>\<open>args\<close>, \<^verbatim>\<open>stack\<close>, \<^verbatim>\<open>success\<close>, \<^verbatim>\<open>example\<close>,
  \<^verbatim>\<open>getExample\<close>, \<^verbatim>\<open>like\<close>, \<^verbatim>\<open>itemOf\<close>): it throws on \<^verbatim>\<open>undefined\<close> and
  \<^verbatim>\<open>null\<close>, and no primitive, array or function of the model owns one of these keys.
\<close>

fun get_prop :: "jsval \<Rightarrow> string \<Rightarrow> error + jsval" where
  "get_prop Undefined k = Inl TypeError"
| "get_prop Null k = Inl TypeError"
| "get_prop (Obj kvs) k = Inr (lookup kvs k)"
| "get_prop v k = Inr Undefined"

text \<open>The same read where the code has already made sure the value is truthy.\<close>

definition js_get :: "jsval \<Rightarrow> string \<Rightarrow> jsval" where
  "js_get x k = (case x of Obj kvs \<Rightarrow> lookup kvs k | _ \<Rightarrow> Undefined)"

text \<open>The lodash predicates the code calls.\<close>

definition isUndefined :: "jsval \<Rightarrow> bool" where
  "isUndefined x = (x = Undefined)"

definition isFunction :: "jsval \<Rightarrow> bool" where
  "isFunction x = (case x of Fn src \<Rightarrow> True | _ \<Rightarrow> False)"

definition isString :: "jsval \<Rightarrow> bool" where
  "isString x = (case x of Str s \<Rightarrow> True | _ \<Rightarrow> False)"

definition isArray :: "jsval \<Rightarrow> bool" where
  "isArray x = (case x of Arr xs \<Rightarrow> True | _ \<Rightarrow> False)"

subsection \<open>Conversion to a string\<close>

text \<open>
  \<^verbatim>\<open>val + ''\<close> (line 179) and the conversion of a value used as a property key. An
  integer \<open>Num w\<close> prints in decimal, digit for digit; any other number prints as the
  text it carries; an array joins its elements with commas, \<^verbatim>\<open>undefined\<close> and
  \<^verbatim>\<open>null\<close> elements printing as nothing; a plain object prints as
  \<^verbatim>\<open>[object Object]\<close>.
\<close>

definition digit :: "nat \<Rightarrow> char" where
  "digit d = ''0123456789'' ! (d mod 10)"

function digits :: "nat \<Rightarrow> string" where
  "digits n = (if n < 10 then [digit n] else digits (n div 10) @ [digit n])"
  by pat_completeness auto
termination
  by (relation "measure (\<lambda>n. n)") auto

declare digits.simps [simp del]

definition num_str :: "int \<Rightarrow> string" where
  "num_str i = (if i < 0 then CHR ''-'' # digits (nat (- i)) else digits (nat i))"

fun join_comma :: "string list \<Rightarrow> string" where
  "join_comma [] = []"
| "join_comma [s] = s"
| "join_comma (s # t # ss) = s @ '','' @ join_comma (t # ss)"

fun to_string :: "jsval \<Rightarrow> string" where
  "to_string Undefined = ''undefined''"
| "to_string Null = ''null''"
| "to_string (Bool b) = (if b then ''true'' else ''false'')"
| "to_string (Num w) = num_str (sint w)"
| "to_string (NumOther s) = s"
| "to_string (Str s) = s"
| "to_string (Arr xs) =
     join_comma (map (\<lambda>x. if x = Undefined \<or> x = Null then [] else to_string x) xs)"
| "to_string (Obj kvs) = ''[object Object]''"
| "to_string (Fn src) = src"

section \<open>The default exit handlers (lines 188-217)\<close>

text \<open>
  What a handler writes: \<^verbatim>\<open>console.log\<close> or \<^verbatim>\<open>console.error\<close> of a piece of text
  styled by \<^verbatim>\<open>chalk\<close>, of a raw value, or of \<^verbatim>\<open>util.inspect(value, {depth: null,
  colors: true})\<close>. The styling and the inspection are the libraries' work; the model
  records which one was asked for, and of what.
\<close>

datatype printed =
    Red string
  | Gray string
  | Green string
  | Raw jsval
  | Inspect jsval

datatype console_event = Log printed | LogError printed

text \<open>
  \<^verbatim>\<open>error: function(err) {
    console.log(chalk.red('Something went wrong:'));
    console.error(err.stack ? chalk.gray(err.stack) : err); }\<close>

  The handler returns what it printed and what it threw, if anything: reading
  \<^verbatim>\<open>err.stack\<close> throws, after the banner, when \<^verbatim>\<open>err\<close> is \<^verbatim>\<open>undefined\<close> or \<^verbatim>\<open>null\<close>.
\<close>

definition error_exit :: "jsval \<Rightarrow> console_event list \<times> error option" where
  "error_exit err =
     (case get_prop err ''stack'' of
        Inl e \<Rightarrow> ([Log (Red ''Something went wrong:'')], Some e)
      | Inr stack \<Rightarrow>
          ([Log (Red ''Something went wrong:''),
            LogError (if truthy stack then Gray (to_string stack) else Raw err)], None))"

text \<open>
  The test of lines 199-204 on \<^verbatim>\<open>liveMachine.exits.success\<close>. Each disjunct reads
  through \<^verbatim>\<open>liveMachine.exits\<close> and then \<^verbatim>\<open>.success\<close>, so the first one already throws
  when either is missing.
\<close>

definition output_expected :: "jsval \<Rightarrow> error + bool" where
  "output_expected exits =
     (case get_prop exits ''success'' of
        Inl e \<Rightarrow> Inl e
      | Inr success \<Rightarrow>
          (case get_prop success ''example'' of
             Inl e \<Rightarrow> Inl e
           | Inr ex \<Rightarrow>
               Inr (\<not> isUndefined ex
                    \<or> isFunction (js_get success ''getExample'')
                    \<or> \<not> isUndefined (js_get success ''like'')
                    \<or> \<not> isUndefined (js_get success ''itemOf''))))"

text \<open>
  \<^verbatim>\<open>success: function(output) {
    if (!_.isUndefined(output)) {
      try { if (...) { console.log(util.inspect(output, {depth: null, colors: true})); } }
      catch (e) { }
      return;
    }
    console.log(chalk.green('OK.')); }\<close>

  The argument \<open>exits\<close> is \<^verbatim>\<open>liveMachine.exits\<close>. Whatever the test throws is
  caught, and the handler returns without printing.
\<close>

definition success_exit :: "jsval \<Rightarrow> jsval \<Rightarrow> console_event list" where
  "success_exit exits output =
     (if \<not> isUndefined output then
        (case output_expected exits of
           Inr True \<Rightarrow> [Log (Inspect output)]
         | Inr False \<Rightarrow> []
         | Inl e \<Rightarrow> [])
      else [Log (Green ''OK.'')])"

section \<open>The caller's options (lines 27-49)\<close>

text \<open>
  \<^verbatim>\<open>opts = opts||{};
  if (!opts.machine) { machineDef = opts; }
  else { machineDef = opts.machine; delete opts.machine; }
  machineDef = machineDef || {};\<close>

  The options object is the caller's, so the deletion is visible to the caller:
  \<open>select_machine\<close> returns the machine definition together with the options as they
  are after these lines.
\<close>

definition delete_prop :: "jsval \<Rightarrow> string \<Rightarrow> jsval" where
  "delete_prop x k = (case x of Obj kvs \<Rightarrow> Obj (AList.delete k kvs) | _ \<Rightarrow> x)"

definition select_machine :: "jsval \<Rightarrow> jsval \<times> jsval" where
  "select_machine opts0 =
     (let opts = (if truthy opts0 then opts0 else Obj []);
          (machineDef, opts') =
            (if \<not> truthy (js_get opts ''machine'') then (opts, opts)
             else (js_get opts ''machine'', delete_prop opts ''machine''))
      in (if truthy machineDef then machineDef else Obj [], opts'))"

text \<open>
  \<^verbatim>\<open>var envVarNamespace = '___';
  if (_.isString(opts.envVarNamespace)) { envVarNamespace = opts.envVarNamespace; }\<close>
\<close>

definition envVarNamespace :: "jsval \<Rightarrow> string" where
  "envVarNamespace opts =
     (if isString (js_get opts ''envVarNamespace'')
      then to_string (js_get opts ''envVarNamespace'')
      else ''___'')"

section \<open>The machine\<close>

text \<open>
  Lines 51-81 obtain the runnable machine \<^verbatim>\<open>wetMachine\<close> from the machine runner
  (\<^verbatim>\<open>Machine.build\<close>, or the instance the caller passed). The code below line 81 reads
  two things of it: \<^verbatim>\<open>wetMachine.inputs\<close>, the declared inputs in declaration order,
  each with its \<^verbatim>\<open>example\<close> and its optional \<^verbatim>\<open>description\<close> and
  \<^verbatim>\<open>friendlyName\<close>; and, through the live machine made from it, \<^verbatim>\<open>exits\<close>.
\<close>

record input_def =
  example :: jsval
  description :: "string option"
  friendlyName :: "string option"

record wet_machine =
  inputs :: "(string \<times> input_def) list"
  exits :: jsval

section \<open>Flags for the usage text (lines 84-124)\<close>

text \<open>
  \<^verbatim>\<open>var _shortcut = '-'+inputName[0];
  if (_.contains(shortcutsSoFar, _shortcut)) return;
  shortcutsSoFar.push(_shortcut);
  return _shortcut;\<close>

  \<^verbatim>\<open>inputName[0]\<close> of the empty name is \<^verbatim>\<open>undefined\<close>, which the concatenation
  prints. The result is the shortcut, if any, and \<^verbatim>\<open>shortcutsSoFar\<close> afterwards.
\<close>

definition optShortcut :: "string list \<Rightarrow> string \<Rightarrow> string option \<times> string list" where
  "optShortcut shortcutsSoFar inputName =
     (let shortcut = ''-'' @ (case inputName of [] \<Rightarrow> ''undefined'' | c # cs \<Rightarrow> [c])
      in if shortcut \<in> set shortcutsSoFar then (None, shortcutsSoFar)
         else (Some shortcut, shortcutsSoFar @ [shortcut]))"

text \<open>
  \<^verbatim>\<open>var _optDescription = inputDef.description || inputDef.friendlyName || '';
  return (_optDescription[0]||'').toLowerCase() + _optDescription.slice(1);\<close>

  \<^verbatim>\<open>String.prototype.toLowerCase\<close> is the parameter \<open>toLowerCase\<close>.
\<close>

definition or_else :: "string option \<Rightarrow> string \<Rightarrow> string" where
  "or_else a b = (case a of None \<Rightarrow> b | Some s \<Rightarrow> if s = [] then b else s)"

definition optDescription :: "(string \<Rightarrow> string) \<Rightarrow> input_def \<Rightarrow> string" where
  "optDescription toLowerCase inputDef =
     (let d = or_else (description inputDef) (or_else (friendlyName inputDef) [])
      in toLowerCase (take 1 d) @ drop 1 d)"

text \<open>
  \<^verbatim>\<open>if (optShortcut) { return util.format('%s, %s', optShortcut, opt); }
  return util.format('%s', opt);\<close>
\<close>

definition optUsage :: "string option \<Rightarrow> string \<Rightarrow> string" where
  "optUsage shortcut opt =
     (case shortcut of
        None \<Rightarrow> opt
      | Some s \<Rightarrow> if s = [] then opt else s @ '', '' @ opt)"

text \<open>
  The loop over \<^verbatim>\<open>wetMachine.inputs\<close>. Each call \<^verbatim>\<open>program.option(optUsage,
  optDescription)\<close> or \<^verbatim>\<open>program.option(optUsage)\<close> is recorded as a pair, in the order
  of the calls; the second component of the result is \<^verbatim>\<open>shortcutsSoFar\<close> at the end.
\<close>

type_synonym registration = "string \<times> string option"

fun register_options ::
  "(string \<Rightarrow> string) \<Rightarrow> (string \<times> input_def) list \<Rightarrow> string list
     \<Rightarrow> registration list \<times> string list" where
  "register_options toLowerCase [] shortcutsSoFar = ([], shortcutsSoFar)"
| "register_options toLowerCase ((inputName, inputDef) # rest) shortcutsSoFar =
     (let opt = ''--'' @ inputName;
          (shortcut, shortcutsSoFar') = optShortcut shortcutsSoFar inputName;
          d = optDescription toLowerCase inputDef;
          (regs, final) = register_options toLowerCase rest shortcutsSoFar'
      in ((optUsage shortcut opt, if d = [] then None else Some d) # regs, final))"

section \<open>The input configuration (lines 133-164)\<close>

type_synonym config = "(string \<times> jsval) list"

text \<open>\<^verbatim>\<open>_.extend(dst, src)\<close> assigns the properties of \<open>src\<close> to \<open>dst\<close>, in order.\<close>

definition lodash_extend :: "config \<Rightarrow> config \<Rightarrow> config" where
  "lodash_extend dst src = fold (\<lambda>(k, v). AList.update k v) src dst"

text \<open>
  \<^verbatim>\<open>_.extend(inputConfiguration, yargs.argv);
  delete inputConfiguration._;
  delete inputConfiguration.$0;\<close>
\<close>

definition cli_options :: "config \<Rightarrow> config" where
  "cli_options argv = AList.delete ''$0'' (AList.delete ''_'' (lodash_extend [] argv))"

text \<open>
  \<^verbatim>\<open>_.each(wetMachine.inputs, function (inputDef, inputName){
    var envVarData = process.env[envVarNamespace + inputName];
    if (_.isUndefined(envVarData)) { return; }
    inputConfiguration[inputName] = envVarData; });\<close>

  \<^verbatim>\<open>process.env\<close> is a partial map from names to strings.
\<close>

fun supply_env ::
  "(string \<Rightarrow> string option) \<Rightarrow> string \<Rightarrow> (string \<times> input_def) list \<Rightarrow> config \<Rightarrow> config" where
  "supply_env env ns [] c = c"
| "supply_env env ns ((inputName, inputDef) # rest) c =
     (case env (ns @ inputName) of
        None \<Rightarrow> supply_env env ns rest c
      | Some envVarData \<Rightarrow> supply_env env ns rest (AList.update inputName (Str envVarData) c))"

text \<open>\<^verbatim>\<open>if (_.isArray(yargs.argv._)) { inputConfiguration.args = yargs.argv._; }\<close>\<close>

definition include_args :: "config \<Rightarrow> config \<Rightarrow> config" where
  "include_args argv c =
     (if isArray (lookup argv ''_'') then AList.update ''args'' (lookup argv ''_'') c else c)"

text \<open>
  The read \<^verbatim>\<open>yargs.argv._[i]\<close>: past the end of an array it is \<^verbatim>\<open>undefined\<close>, and it
  throws when \<^verbatim>\<open>yargs.argv._\<close> is \<^verbatim>\<open>undefined\<close> or \<^verbatim>\<open>null\<close>.
\<close>

fun js_index :: "jsval \<Rightarrow> nat \<Rightarrow> error + jsval" where
  "js_index Undefined i = Inl TypeError"
| "js_index Null i = Inl TypeError"
| "js_index (Arr xs) i = Inr (if i < length xs then xs ! i else Undefined)"
| "js_index (Str s) i = Inr (if i < length s then Str [s ! i] else Undefined)"
| "js_index (Obj kvs) i = Inr (lookup kvs (num_str (int i)))"
| "js_index v i = Inr Undefined"

text \<open>
  \<^verbatim>\<open>_.each(opts.args, function (inputName, i){
    inputConfiguration[inputName] = yargs.argv._[i]; });\<close>

  The argument \<open>positional\<close> is \<^verbatim>\<open>yargs.argv._\<close>, \<open>i\<close> the index of the first name
  of the list. A name is used as a property key, so it is converted to a string.
\<close>

fun supply_positional :: "jsval \<Rightarrow> jsval list \<Rightarrow> nat \<Rightarrow> config \<Rightarrow> error + config" where
  "supply_positional positional [] i c = Inr c"
| "supply_positional positional (inputName # rest) i c =
     (case js_index positional i of
        Inl e \<Rightarrow> Inl e
      | Inr v \<Rightarrow> supply_positional positional rest (Suc i) (AList.update (to_string inputName) v c))"

text \<open>Lines 134-157: the configuration before the positional names are applied.\<close>

definition named_configuration ::
  "(string \<Rightarrow> string option) \<Rightarrow> string \<Rightarrow> config \<Rightarrow> (string \<times> input_def) list \<Rightarrow> config" where
  "named_configuration env ns argv ins = include_args argv (supply_env env ns ins (cli_options argv))"

text \<open>Lines 134-164: \<^verbatim>\<open>inputConfiguration\<close> as it enters the coercion.\<close>

definition inputConfiguration ::
  "(string \<Rightarrow> string option) \<Rightarrow> string \<Rightarrow> config \<Rightarrow> jsval \<Rightarrow> (string \<times> input_def) list
     \<Rightarrow> error + config" where
  "inputConfiguration env ns argv opts ins =
     (case js_get opts ''args'' of
        Arr names \<Rightarrow> supply_positional (lookup argv ''_'') names 0 (named_configuration env ns argv ins)
      | _ \<Rightarrow> Inr (named_configuration env ns argv ins))"

section \<open>Coercion (lines 166-182)\<close>

text \<open>
  \<^verbatim>\<open>inputConfiguration = _.reduce(inputConfiguration, function (memo, val, inputName){
    var inputDef = wetMachine.inputs[inputName];
    if (!inputDef && inputName === 'args') { return memo; }
    if (!inputDef) { throw new Error('Unexpected error: received configuration for unknown input ('+inputName+')'); }
    val = val+'';
    memo[inputName] = rttc.parseHuman(val, rttc.infer(inputDef.example), true);
    return memo; }, {});\<close>

  \<^verbatim>\<open>rttc.infer\<close> and \<^verbatim>\<open>rttc.parseHuman\<close> belong to another package: they are the
  parameters \<open>infer\<close> and \<open>parseHuman\<close>, over a type \<open>'ty\<close> of type schemas, and
  \<open>parseHuman\<close> may throw.
\<close>

subsection \<open>What \<^verbatim>\<open>_.reduce\<close> visits\<close>

text \<open>
  The code calls \<^verbatim>\<open>_.contains\<close> (line 100) and \<^verbatim>\<open>_.kebabCase\<close> (line 67), which only
  lodash 3 has both. There \<^verbatim>\<open>_.reduce\<close> of a collection that is not an array reads
  \<^verbatim>\<open>collection.length\<close>. When that is a length (\<^verbatim>\<open>isLength\<close>: a number, above
  \<open>-1\<close>, an integer, at most \<^verbatim>\<open>MAX_SAFE_INTEGER\<close>), the collection is taken for an
  array: the callback gets the indices \<open>0, ..., length - 1\<close> as keys, each with the value
  \<^verbatim>\<open>collection[index]\<close>, and the other keys are not visited. Otherwise the callback
  gets the own keys and their values. The configuration is such a collection, and
  \<^verbatim>\<open>length\<close> is an ordinary key of it.
\<close>

definition isLength :: "jsval \<Rightarrow> bool" where
  "isLength v = (case v of Num w \<Rightarrow> 0 \<le> sint w | _ \<Rightarrow> False)"

definition visited :: "config \<Rightarrow> config" where
  "visited collection =
     (case lookup collection ''length'' of
        Num w \<Rightarrow>
          if isLength (Num w)
          then map (\<lambda>index. (num_str (int index), lookup collection (num_str (int index))))
                 [0..<nat (sint w)]
          else collection
      | _ \<Rightarrow> collection)"

subsection \<open>What \<^verbatim>\<open>wetMachine.inputs[inputName]\<close> finds\<close>

text \<open>
  \<^verbatim>\<open>wetMachine.inputs\<close> is a plain object, so the read of line 170 goes on to
  \<^verbatim>\<open>Object.prototype\<close> when no input has the name. The members found there are functions,
  and \<^verbatim>\<open>__proto__\<close> is the prototype itself: all are truthy, and none has an
  \<^verbatim>\<open>example\<close>. The result below is the \<^verbatim>\<open>example\<close> of what the read finds, and
  \<open>None\<close> when it finds nothing, which is when \<^verbatim>\<open>!inputDef\<close> holds.
\<close>

definition Object_prototype :: "string list" where
  "Object_prototype =
     [''constructor'', ''toString'', ''toLocaleString'', ''valueOf'', ''hasOwnProperty'',
      ''isPrototypeOf'', ''propertyIsEnumerable'', ''__defineGetter__'', ''__defineSetter__'',
      ''__lookupGetter__'', ''__lookupSetter__'', ''__proto__'']"

definition inputDef_example :: "(string \<times> input_def) list \<Rightarrow> string \<Rightarrow> jsval option" where
  "inputDef_example ins inputName =
     (case map_of ins inputName of
        Some inputDef \<Rightarrow> Some (example inputDef)
      | None \<Rightarrow> if inputName \<in> set Object_prototype then Some Undefined else None)"

subsection \<open>The callback and the reduction\<close>

definition unknown_input :: "string \<Rightarrow> error" where
  "unknown_input inputName =
     Error (''Unexpected error: received configuration for unknown input ('' @ inputName @ '')'')"

text \<open>
  The callback over the visited keys, with \<open>memo\<close> passed along. A visited index is a
  number, which is never \<^verbatim>\<open>=== 'args'\<close>; it reads and writes the property named by
  its decimal digits, which is no \<^verbatim>\<open>args\<close> either.
\<close>

fun coerce_each ::
  "(string \<Rightarrow> 'ty \<Rightarrow> bool \<Rightarrow> error + jsval) \<Rightarrow> (jsval \<Rightarrow> 'ty) \<Rightarrow> (string \<times> input_def) list
     \<Rightarrow> config \<Rightarrow> config \<Rightarrow> error + config" where
  "coerce_each parseHuman infer ins [] memo = Inr memo"
| "coerce_each parseHuman infer ins ((inputName, val) # rest) memo =
     (case inputDef_example ins inputName of
        None \<Rightarrow>
          if inputName = ''args'' then coerce_each parseHuman infer ins rest memo
          else Inl (unknown_input inputName)
      | Some ex \<Rightarrow>
          (case parseHuman (to_string val) (infer ex) True of
             Inl e \<Rightarrow> Inl e
           | Inr parsed \<Rightarrow>
               coerce_each parseHuman infer ins rest (AList.update inputName parsed memo)))"

text \<open>Lines 167-182: the reduction of \<^verbatim>\<open>inputConfiguration\<close>, from \<^verbatim>\<open>{}\<close>.\<close>

definition coerce ::
  "(string \<Rightarrow> 'ty \<Rightarrow> bool \<Rightarrow> error + jsval) \<Rightarrow> (jsval \<Rightarrow> 'ty) \<Rightarrow> (string \<times> input_def) list
     \<Rightarrow> config \<Rightarrow> error + config" where
  "coerce parseHuman infer ins cfg = coerce_each parseHuman infer ins (visited cfg) []"

section \<open>The adapter\<close>

text \<open>
  The collaborators of other packages, and the process the script runs in:
  \<^verbatim>\<open>process.env\<close> and the object \<^verbatim>\<open>yargs.argv\<close>, with the positional tokens under
  \<^verbatim>\<open>_\<close> and the program name under \<^verbatim>\<open>$0\<close>.
\<close>

record 'ty collaborators =
  toLowerCase :: "string \<Rightarrow> string"
  wetMachine_of :: "jsval \<Rightarrow> wet_machine"
  infer :: "jsval \<Rightarrow> 'ty"
  parseHuman :: "string \<Rightarrow> 'ty \<Rightarrow> bool \<Rightarrow> error + jsval"

record process =
  process_env :: "string \<Rightarrow> string option"
  yargs_argv :: config

text \<open>
  The live machine the adapter returns: the configuration \<^verbatim>\<open>wetMachine\<close> was called
  with, the two handlers given to \<^verbatim>\<open>setExits\<close>, and \<^verbatim>\<open>_telltale\<close>.
\<close>

record live_machine =
  configuration :: config
  on_error :: "jsval \<Rightarrow> console_event list \<times> error option"
  on_success :: "jsval \<Rightarrow> console_event list"
  telltale :: string

text \<open>
  One call of \<^verbatim>\<open>runMachineAsScript(opts)\<close> in which \<^verbatim>\<open>program.parse\<close> returns: the
  caller's options afterwards, the calls of \<^verbatim>\<open>program.option\<close>, and the live machine
  returned or the error thrown. The live machine has the exits of the machine it is
  made from.
\<close>

record outcome =
  opts_after :: jsval
  registered :: "registration list"
  returned :: "error + live_machine"

definition runMachineAsScript :: "'ty collaborators \<Rightarrow> process \<Rightarrow> jsval \<Rightarrow> outcome" where
  "runMachineAsScript lib proc opts0 =
     (let (machineDef, opts) = select_machine opts0;
          ns = envVarNamespace opts;
          wetMachine = wetMachine_of lib machineDef;
          regs = fst (register_options (toLowerCase lib) (inputs wetMachine) []);
          res =
            (case inputConfiguration (process_env proc) ns (yargs_argv proc) opts (inputs wetMachine) of
               Inl e \<Rightarrow> Inl e
             | Inr c \<Rightarrow>
                 (case coerce (parseHuman lib) (infer lib) (inputs wetMachine) c of
                    Inl e \<Rightarrow> Inl e
                  | Inr coerced \<Rightarrow>
                      Inr \<lparr>configuration = coerced,
                           on_error = error_exit,
                           on_success = success_exit (exits wetMachine),
                           telltale = ''machine-as-script''\<rparr>))
      in \<lparr>opts_after = opts, registered = regs, returned = res\<rparr>)"

section \<open>Lemmas about the configuration\<close>

text \<open>The configuration is an object at every point: its keys stay distinct.\<close>

lemma distinct_extend:
  "distinct (map fst dst) \<Longrightarrow> distinct (map fst (lodash_extend dst src))"
  unfolding lodash_extend_def
  by (induction src arbitrary: dst) (auto simp: AList.distinct_update)

lemma distinct_cli_options: "distinct (map fst (cli_options argv))"
  by (simp add: cli_options_def AList.distinct_delete distinct_extend)

lemma distinct_supply_env:
  "distinct (map fst c) \<Longrightarrow> distinct (map fst (supply_env ev ns ins c))"
  by (induction ins arbitrary: c) (auto simp: AList.distinct_update split: option.splits)


lemma distinct_include_args:
  "distinct (map fst c) \<Longrightarrow> distinct (map fst (include_args argv c))"
  by (simp add: include_args_def AList.distinct_update)


lemma distinct_named_configuration:
  "distinct (map fst (named_configuration ev ns argv ins))"
  by (simp add: named_configuration_def distinct_include_args distinct_supply_env
      distinct_cli_options)

lemma distinct_supply_positional:
  "supply_positional pos names i c = Inr c' \<Longrightarrow> distinct (map fst c)
     \<Longrightarrow> distinct (map fst c')"
  by (induction names arbitrary: i c) (auto simp: AList.distinct_update split: sum.splits)

lemma supply_positional_other:
  "supply_positional pos names i c = Inr c' \<Longrightarrow> k \<notin> to_string ` set names
     \<Longrightarrow> map_of c' k = map_of c k"
  by (induction names arbitrary: i c) (auto simp: AList.update_conv' split: sum.splits)

lemma supply_positional_append:
  "supply_positional pos (xs @ ys) i c =
     (case supply_positional pos xs i c of
        Inl e \<Rightarrow> Inl e
      | Inr c1 \<Rightarrow> supply_positional pos ys (i + length xs) c1)"
  by (induction xs arbitrary: i c) (auto split: sum.splits)

lemma supply_positional_Arr:
  "\<exists>c'. supply_positional (Arr toks) names i c = Inr c'"
  by (induction names arbitrary: i c) auto

lemma supply_positional_surplus:
  "supply_positional (Arr toks) names i c = Inr c' \<Longrightarrow> length toks \<le> i
     \<Longrightarrow> map_of c k = Some Undefined \<Longrightarrow> map_of c' k = Some Undefined"
  by (induction names arbitrary: i c) (auto simp: AList.update_conv' split: sum.splits)

lemma supply_positional_step:
  assumes "N < length names"
  shows "\<exists>c1. supply_positional (Arr toks) (take (Suc N) names) 0 c = Inr c1
           \<and> map_of c1 (to_string (names ! N)) = Some (if N < length toks then toks ! N else Undefined)
           \<and> supply_positional (Arr toks) names 0 c
               = supply_positional (Arr toks) (drop (Suc N) names) (Suc N) c1"
proof -
  obtain c0 where c0: "supply_positional (Arr toks) (take N names) 0 c = Inr c0"
    using supply_positional_Arr by blast
  let ?c1 = "AList.update (to_string (names ! N)) (if N < length toks then toks ! N else Undefined) c0"
  have t: "take (Suc N) names = take N names @ [names ! N]"
    using assms by (simp add: take_Suc_conv_app_nth)
  have 1: "supply_positional (Arr toks) (take (Suc N) names) 0 c = Inr ?c1"
    using assms by (simp add: t supply_positional_append c0)
  have "names = take (Suc N) names @ drop (Suc N) names" by simp
  then have "supply_positional (Arr toks) names 0 c
      = supply_positional (Arr toks) (take (Suc N) names @ drop (Suc N) names) 0 c"
    by simp
  also have "\<dots> = supply_positional (Arr toks) (drop (Suc N) names) (Suc N) ?c1"
    using assms by (simp only: supply_positional_append 1) (simp add: min_def)
  finally show ?thesis
    using 1 by (simp add: AList.update_conv')
qed

section \<open>Lemmas about the coercion\<close>

lemma visited_own_keys:
  "\<not> isLength (lookup cfg ''length'') \<Longrightarrow> visited cfg = cfg"
  by (cases "lookup cfg ''length''") (simp_all add: visited_def)

lemma visited_length_0:
  "lookup cfg ''length'' = Num 0 \<Longrightarrow> visited cfg = []"
  by (simp add: visited_def isLength_def)

lemma visited_array_like:
  "lookup cfg ''length'' = Num w \<Longrightarrow> 0 \<le> sint w \<Longrightarrow>
     fst ` set (visited cfg) = (\<lambda>i. num_str (int i)) ` {..<nat (sint w)}"
  by (force simp: visited_def isLength_def image_iff)

lemma coerce_each_other:
  "coerce_each P I ins entries memo = Inr m
     \<Longrightarrow> k \<notin> fst ` set entries \<or> inputDef_example ins k = None
     \<Longrightarrow> map_of m k = map_of memo k"
proof (induction entries arbitrary: memo)
  case Nil
  then show ?case by simp
next
  case (Cons p entries)
  obtain n v where p: "p = (n, v)" by (cases p)
  show ?case
  proof (cases "inputDef_example ins n")
    case None
    with Cons.prems p have "coerce_each P I ins entries memo = Inr m"
      by (simp split: if_splits)
    with Cons.IH Cons.prems(2) p show ?thesis by auto
  next
    case (Some ex)
    with Cons.prems p obtain r where
      r: "P (to_string v) (I ex) True = Inr r"
      and rest: "coerce_each P I ins entries (AList.update n r memo) = Inr m"
      by (auto split: sum.splits)
    from Cons.prems(2) p Some have "k \<noteq> n"
      "k \<notin> fst ` set entries \<or> inputDef_example ins k = None"
      by auto
    with Cons.IH [OF rest] show ?thesis
      by (simp add: AList.update_conv')
  qed
qed

lemma coerce_each_value:
  "coerce_each P I ins entries memo = Inr m \<Longrightarrow> distinct (map fst entries)
     \<Longrightarrow> (k, v) \<in> set entries \<Longrightarrow> inputDef_example ins k = Some ex
     \<Longrightarrow> \<exists>r. P (to_string v) (I ex) True = Inr r \<and> map_of m k = Some r"
proof (induction entries arbitrary: memo)
  case Nil
  then show ?case by simp
next
  case (Cons p entries)
  obtain n w where p: "p = (n, w)" by (cases p)
  show ?case
  proof (cases "(k, v) = (n, w)")
    case True
    with Cons.prems p obtain r where
      r: "P (to_string v) (I ex) True = Inr r"
      and rest: "coerce_each P I ins entries (AList.update k r memo) = Inr m"
      by (auto split: sum.splits)
    from Cons.prems(2) p True have "k \<notin> fst ` set entries" by auto
    with coerce_each_other [OF rest] have "map_of m k = Some r"
      by (simp add: AList.update_conv')
    with r show ?thesis by blast
  next
    case False
    with Cons.prems p have in_rest: "(k, v) \<in> set entries" by auto
    from Cons.prems(1) p obtain memo' where "coerce_each P I ins entries memo' = Inr m"
      by (auto split: option.splits if_splits sum.splits)
    from Cons.IH [OF this _ in_rest Cons.prems(4)] Cons.prems(2) show ?thesis by simp
  qed
qed

lemma coerce_each_unknown_throws:
  "(k, v) \<in> set entries \<Longrightarrow> inputDef_example ins k = None \<Longrightarrow> k \<noteq> ''args''
     \<Longrightarrow> \<exists>e. coerce_each P I ins entries memo = Inl e"
  by (induction entries arbitrary: memo) (auto split: option.splits sum.splits)

text \<open>
  Where the configuration is not taken for an array, the reduction visits its own keys:
  the value of a declared input is converted to a string, parsed for the type inferred
  from the input's example and stored, and a key for which
  \<^verbatim>\<open>wetMachine.inputs[inputName]\<close> finds nothing, other than \<^verbatim>\<open>args\<close>, makes the
  reduction throw.
\<close>

lemma coerce_declared_key:
  assumes "\<not> isLength (lookup cfg ''length'')" "distinct (map fst cfg)"
    and "coerce P I ins cfg = Inr m" "map_of cfg k = Some v" "map_of ins k = Some d"
  shows "\<exists>r. P (to_string v) (I (example d)) True = Inr r \<and> map_of m k = Some r"
proof -
  have "coerce_each P I ins cfg [] = Inr m"
    using assms(1,3) by (simp add: coerce_def visited_own_keys)
  moreover have "inputDef_example ins k = Some (example d)"
    using assms(5) by (simp add: inputDef_example_def)
  ultimately show ?thesis
    using coerce_each_value assms(2) map_of_SomeD [OF assms(4)] by blast
qed

lemma coerce_unknown_key:
  assumes "\<not> isLength (lookup cfg ''length'')"
    and "(k, v) \<in> set cfg" "map_of ins k = None" "k \<notin> set Object_prototype" "k \<noteq> ''args''"
  shows "\<exists>e. coerce P I ins cfg = Inl e"
proof -
  have "inputDef_example ins k = None"
    using assms(3,4) by (simp add: inputDef_example_def)
  then show ?thesis
    using assms(1,2,5) by (simp add: coerce_def visited_own_keys coerce_each_unknown_throws)
qed

section \<open>Lemmas about the flags\<close>

lemma optShortcut_set:
  "set (snd (optShortcut sofar nm))
     = insert (''-'' @ (case nm of [] \<Rightarrow> ''undefined'' | c # cs \<Rightarrow> [c])) (set sofar)"
  by (auto simp: optShortcut_def Let_def split: if_splits)

lemma fst_register_options_Cons:
  "fst (register_options lc ((nm, d) # rest) sofar) =
     (optUsage (fst (optShortcut sofar nm)) (''--'' @ nm),
      if optDescription lc d = [] then None else Some (optDescription lc d))
     # fst (register_options lc rest (snd (optShortcut sofar nm)))"
  by (simp add: Let_def split: prod.splits)

lemma snd_register_options_Cons:
  "snd (register_options lc ((nm, d) # rest) sofar) =
     snd (register_options lc rest (snd (optShortcut sofar nm)))"
  by (simp add: Let_def split: prod.splits)

lemma shortcuts_register_options:
  "set (snd (register_options lc ins sofar))
     = set sofar \<union> (\<lambda>nm. ''-'' @ (case nm of [] \<Rightarrow> ''undefined'' | c # cs \<Rightarrow> [c])) ` fst ` set ins"
proof (induction ins arbitrary: sofar)
  case Nil
  then show ?case by simp
next
  case (Cons p ins)
  obtain nm d where p: "p = (nm, d)" by (cases p)
  show ?case
    unfolding p snd_register_options_Cons Cons.IH optShortcut_set by auto
qed

lemma nth_register_options:
  "j < length ins \<Longrightarrow>
     fst (fst (register_options lc ins sofar) ! j)
       = optUsage (fst (optShortcut (snd (register_options lc (take j ins) sofar)) (fst (ins ! j))))
           (''--'' @ fst (ins ! j))"
proof (induction ins arbitrary: sofar j)
  case Nil
  then show ?case by simp
next
  case (Cons p ins)
  obtain nm d where p: "p = (nm, d)" by (cases p)
  show ?case
  proof (cases j)
    case 0
    then show ?thesis unfolding p fst_register_options_Cons by simp
  next
    case (Suc j')
    with Cons.prems have "j' < length ins" by simp
    from Cons.IH [OF this, of "snd (optShortcut sofar nm)"] show ?thesis
      unfolding Suc p fst_register_options_Cons take_Suc_Cons snd_register_options_Cons
      by simp
  qed
qed

lemma select_machine_ns:
  "envVarNamespace (snd (select_machine opts0)) =
     (case js_get opts0 ''envVarNamespace'' of Str s \<Rightarrow> s | _ \<Rightarrow> ''___'')"
  by (cases opts0)
    (auto simp: select_machine_def envVarNamespace_def js_get_def isString_def lookup_def
      delete_prop_def Let_def AList.delete_conv' split: jsval.splits option.splits)

lemma opts_after_run:
  "opts_after (runMachineAsScript lib proc opts0) = snd (select_machine opts0)"
  by (simp add: runMachineAsScript_def Let_def split: prod.splits)

section \<open>Lemmas about a whole call\<close>

lemma supply_positional_last:
  "supply_positional (Arr toks) names i c = Inr c' \<Longrightarrow>
     (k \<notin> to_string ` set names \<and> map_of c' k = map_of c k)
     \<or> (\<exists>M<length names. to_string (names ! M) = k
           \<and> map_of c' k = Some (if i + M < length toks then toks ! (i + M) else Undefined))"
proof (induction names arbitrary: i c)
  case Nil
  then show ?case by simp
next
  case (Cons x xs)
  let ?c2 = "AList.update (to_string x) (if i < length toks then toks ! i else Undefined) c"
  from Cons.prems have rest: "supply_positional (Arr toks) xs (Suc i) ?c2 = Inr c'"
    by simp
  from Cons.IH [OF rest] show ?case
  proof
    assume a: "k \<notin> to_string ` set xs \<and> map_of c' k = map_of ?c2 k"
    show ?thesis
    proof (cases "k = to_string x")
      case True
      with a have "map_of c' k = Some (if i + 0 < length toks then toks ! (i + 0) else Undefined)"
        by (simp add: AList.update_conv')
      with True show ?thesis by (intro disjI2 exI [of _ 0]) simp
    next
      case False
      with a show ?thesis by (simp add: AList.update_conv')
    qed
  next
    assume "\<exists>M<length xs. to_string (xs ! M) = k
           \<and> map_of c' k = Some (if Suc i + M < length toks then toks ! (Suc i + M) else
               Undefined)"
    then obtain M where "M < length xs" "to_string (xs ! M) = k"
      "map_of c' k = Some (if Suc i + M < length toks then toks ! (Suc i + M) else Undefined)"
      by blast
    then show ?thesis by (intro disjI2 exI [of _ "Suc M"]) simp
  qed
qed

lemma inputConfiguration_distinct:
  "inputConfiguration ev ns argv opts ins = Inr cfg \<Longrightarrow> distinct (map fst cfg)"
  by (auto simp: inputConfiguration_def distinct_named_configuration
      dest: distinct_supply_positional split: jsval.splits)

lemma returned_run:
  assumes "select_machine opts0 = (machineDef, opts)"
    and "inputConfiguration (process_env proc) (envVarNamespace opts) (yargs_argv proc) opts
           (inputs (wetMachine_of lib machineDef)) = Inr cfg"
  shows "returned (runMachineAsScript lib proc opts0) =
     (case coerce (parseHuman lib) (infer lib) (inputs (wetMachine_of lib machineDef)) cfg of
        Inl e \<Rightarrow> Inl e
      | Inr coerced \<Rightarrow>
          Inr \<lparr>configuration = coerced, on_error = error_exit,
               on_success = success_exit (exits (wetMachine_of lib machineDef)),
               telltale = ''machine-as-script''\<rparr>)"
  using assms by (simp add: runMachineAsScript_def Let_def)

lemma select_machine_example:
  "select_machine (Obj [(''machine'', Obj [])]) = (Obj [], Obj [])"
  by (simp add: select_machine_def js_get_def lookup_def delete_prop_def)

lemma select_machine_with_args:
  "select_machine (Obj [(''machine'', Obj []), (''args'', Arr names)])
     = (Obj [], Obj [(''args'', Arr names)])"
  by (simp add: select_machine_def js_get_def lookup_def delete_prop_def)

section \<open>The claims\<close>

text \<open>
  C1. The claim: when the success handler receives a defined output and the success exit
  has none of \<^verbatim>\<open>example\<close>, \<^verbatim>\<open>getExample\<close>, \<^verbatim>\<open>like\<close> and \<^verbatim>\<open>itemOf\<close>, it prints the
  generic \<^verbatim>\<open>OK.\<close> message. The code does not: with a defined output it returns at line
  210 whatever the test of lines 199-204 says, so in this case it prints nothing
  at all, neither the output nor \<^verbatim>\<open>OK.\<close>.
\<close>

theorem success_exit_silent_on_undeclared_output:
  assumes "output \<noteq> Undefined"
    and "get_prop live_exits ''success'' = Inr (Obj kvs)"
    and "lookup kvs ''example'' = Undefined" "\<not> isFunction (lookup kvs ''getExample'')"
    and "lookup kvs ''like'' = Undefined" "lookup kvs ''itemOf'' = Undefined"
  shows "success_exit live_exits output = []"
  using assms by (simp add: success_exit_def output_expected_def isUndefined_def js_get_def)

theorem success_exit_silent_on_undeclared_output_witness:
  "success_exit (Obj [(''success'', Obj [(''description'', Str ''Done.'')])]) (Str ''hello'') = []
   \<and> success_exit (Obj [(''success'', Obj [(''description'', Str ''Done.'')])]) (Str ''hello'')
       \<noteq> [Log (Green ''OK.'')]"
  using success_exit_silent_on_undeclared_output
    [of "Str ''hello''" "Obj [(''success'', Obj [(''description'', Str ''Done.'')])]"
      "[(''description'', Str ''Done.'')]"]
  by (simp add: lookup_def isFunction_def)



text \<open>
  C3. The claim: a key of the configuration that is neither a declared input nor
  \<^verbatim>\<open>args\<close> makes the call throw the \<^verbatim>\<open>unknown input\<close> error of line 175. The code
  does not do so in two cases. When the configuration holds the number \<open>0\<close> under
  \<^verbatim>\<open>length\<close>, \<^verbatim>\<open>_.reduce\<close> takes it for an empty array: no key is visited and the
  coerced configuration is empty, whatever the other keys are. And a key that names a
  member of \<^verbatim>\<open>Object.prototype\<close>, such as \<^verbatim>\<open>valueOf\<close>, is not rejected when the
  callback reaches it: the read of line 170 finds the inherited member, so the callback
  hands the value to \<^verbatim>\<open>rttc.parseHuman\<close> with the type inferred from \<^verbatim>\<open>undefined\<close> and
  goes on.
\<close>

theorem undeclared_key_not_rejected:
  "(lookup cfg ''length'' = Num 0 \<longrightarrow> coerce P I ins cfg = Inr [])
   \<and> (k \<in> set Object_prototype \<and> map_of ins k = None \<longrightarrow>
        coerce_each P I ins ((k, v) # rest) memo =
          (case P (to_string v) (I Undefined) True of
             Inl e \<Rightarrow> Inl e
           | Inr parsed \<Rightarrow> coerce_each P I ins rest (AList.update k parsed memo)))"
  by (simp add: coerce_def visited_length_0 inputDef_example_def)

theorem undeclared_key_not_rejected_witness:
  "inputConfiguration (\<lambda>n. None) ''___''
      [(''_'', Arr [Str ''a'']), (''length'', Num 0), (''$0'', Str ''script.js'')]
      (Obj [(''args'', Arr [Str ''bogus''])]) [(''length'', \<lparr>example = Num 1, description = None, friendlyName = None\<rparr>)]
     = Inr [(''length'', Num 0), (''args'', Arr [Str ''a'']), (''bogus'', Str ''a'')]
   \<and> returned (runMachineAsScript
       \<lparr>toLowerCase = id,
       wetMachine_of = (\<lambda>m. \<lparr>inputs = [(''length'', \<lparr>example = Num 1, description = None, friendlyName = None\<rparr>)],
         exits = Obj []\<rparr>),
       infer = (\<lambda>v. v), parseHuman = (\<lambda>s t u. Inr (Str s))\<rparr>
       \<lparr>process_env = (\<lambda>n. None),
       yargs_argv = [(''_'', Arr [Str ''a'']), (''length'', Num 0), (''$0'', Str ''script.js'')]\<rparr>
       (Obj [(''machine'', Obj []), (''args'', Arr [Str ''bogus''])]))
     = Inr \<lparr>configuration = [], on_error = error_exit,
         on_success = success_exit (Obj []), telltale = ''machine-as-script''\<rparr>
   \<and> inputConfiguration (\<lambda>n. None) ''___''
      [(''_'', Arr [Str ''x'']), (''$0'', Str ''script.js'')]
      (Obj [(''args'', Arr [Str ''valueOf''])]) [(''count'', \<lparr>example = Num 1, description = None, friendlyName = None\<rparr>)]
     = Inr [(''args'', Arr [Str ''x'']), (''valueOf'', Str ''x'')]
   \<and> returned (runMachineAsScript
       \<lparr>toLowerCase = id,
       wetMachine_of = (\<lambda>m. \<lparr>inputs = [(''count'', \<lparr>example = Num 1, description = None, friendlyName = None\<rparr>)],
         exits = Obj []\<rparr>),
       infer = (\<lambda>v. v), parseHuman = (\<lambda>s t u. Inr (Str s))\<rparr>
       \<lparr>process_env = (\<lambda>n. None),
       yargs_argv = [(''_'', Arr [Str ''x'']), (''$0'', Str ''script.js'')]\<rparr>
       (Obj [(''machine'', Obj []), (''args'', Arr [Str ''valueOf''])]))
     = Inr \<lparr>configuration = [(''valueOf'', Str ''x'')], on_error = error_exit,
         on_success = success_exit (Obj []), telltale = ''machine-as-script''\<rparr>"
proof -
  let ?liblen = "\<lparr>toLowerCase = id,
       wetMachine_of = (\<lambda>m. \<lparr>inputs = [(''length'', \<lparr>example = Num 1, description = None, friendlyName = None\<rparr>)],
         exits = Obj []\<rparr>),
       infer = (\<lambda>v. v), parseHuman = (\<lambda>s t u. Inr (Str s))\<rparr>"
  let ?proclen = "\<lparr>process_env = (\<lambda>n. None),
       yargs_argv = [(''_'', Arr [Str ''a'']), (''length'', Num 0), (''$0'', Str ''script.js'')]\<rparr>"
  let ?libcount = "\<lparr>toLowerCase = id,
       wetMachine_of = (\<lambda>m. \<lparr>inputs = [(''count'', \<lparr>example = Num 1, description = None, friendlyName = None\<rparr>)],
         exits = Obj []\<rparr>),
       infer = (\<lambda>v. v), parseHuman = (\<lambda>s t u. Inr (Str s))\<rparr>"
  let ?procx = "\<lparr>process_env = (\<lambda>n. None),
       yargs_argv = [(''_'', Arr [Str ''x'']), (''$0'', Str ''script.js'')]\<rparr>"
  let ?ca = "[(''length'', Num 0), (''args'', Arr [Str ''a'']), (''bogus'', Str ''a'')]"
  let ?cb = "[(''args'', Arr [Str ''x'']), (''valueOf'', Str ''x'')]"
  have a: "inputConfiguration (\<lambda>n. None) ''___''
      [(''_'', Arr [Str ''a'']), (''length'', Num 0), (''$0'', Str ''script.js'')]
      (Obj [(''args'', Arr [Str ''bogus''])]) [(''length'', \<lparr>example = Num 1, description = None, friendlyName = None\<rparr>)] = Inr ?ca"
    by (simp add: inputConfiguration_def named_configuration_def include_args_def isArray_def js_get_def lookup_def cli_options_def lodash_extend_def envVarNamespace_def isString_def)
  then have a': "inputConfiguration (process_env ?proclen)
      (envVarNamespace (Obj [(''args'', Arr [Str ''bogus''])])) (yargs_argv ?proclen)
      (Obj [(''args'', Arr [Str ''bogus''])]) (inputs (wetMachine_of ?liblen (Obj []))) = Inr ?ca"
    by (simp add: envVarNamespace_def js_get_def lookup_def isString_def)
  have "lookup ?ca ''length'' = Num 0"
    by (simp add: lookup_def)
  with undeclared_key_not_rejected [of ?ca "parseHuman ?liblen" "infer ?liblen"
      "inputs (wetMachine_of ?liblen (Obj []))"]
  have "coerce (parseHuman ?liblen) (infer ?liblen) (inputs (wetMachine_of ?liblen (Obj []))) ?ca
      = Inr []"
    by blast
  then have ra: "returned (runMachineAsScript ?liblen ?proclen
      (Obj [(''machine'', Obj []), (''args'', Arr [Str ''bogus''])])) = Inr \<lparr>configuration = [], on_error = error_exit,
         on_success = success_exit (Obj []), telltale = ''machine-as-script''\<rparr>"
    by (simp add: returned_run [OF select_machine_with_args a'])
  have b: "inputConfiguration (\<lambda>n. None) ''___''
      [(''_'', Arr [Str ''x'']), (''$0'', Str ''script.js'')]
      (Obj [(''args'', Arr [Str ''valueOf''])]) [(''count'', \<lparr>example = Num 1, description = None, friendlyName = None\<rparr>)] = Inr ?cb"
    by (simp add: inputConfiguration_def named_configuration_def include_args_def isArray_def js_get_def lookup_def cli_options_def lodash_extend_def envVarNamespace_def isString_def)
  then have b': "inputConfiguration (process_env ?procx)
      (envVarNamespace (Obj [(''args'', Arr [Str ''valueOf''])])) (yargs_argv ?procx)
      (Obj [(''args'', Arr [Str ''valueOf''])]) (inputs (wetMachine_of ?libcount (Obj []))) = Inr ?cb"
    by (simp add: envVarNamespace_def js_get_def lookup_def isString_def)
  have v: "''valueOf'' \<in> set Object_prototype
      \<and> map_of (inputs (wetMachine_of ?libcount (Obj []))) ''valueOf'' = None"
    by (simp add: Object_prototype_def)
  have step: "coerce_each (parseHuman ?libcount) (infer ?libcount)
      (inputs (wetMachine_of ?libcount (Obj []))) [(''valueOf'', Str ''x'')] []
      = Inr [(''valueOf'', Str ''x'')]"
    using undeclared_key_not_rejected [THEN conjunct2, rule_format, OF v,
        of "parseHuman ?libcount" "infer ?libcount" "Str ''x''" "[]" "[]"]
    by simp
  have "visited ?cb = ?cb"
    by (simp add: visited_def lookup_def)
  moreover have "inputDef_example (inputs (wetMachine_of ?libcount (Obj []))) ''args'' = None"
    by (simp add: inputDef_example_def Object_prototype_def)
  ultimately have "coerce (parseHuman ?libcount) (infer ?libcount)
      (inputs (wetMachine_of ?libcount (Obj []))) ?cb = Inr [(''valueOf'', Str ''x'')]"
    using step by (simp add: coerce_def)
  then have rb: "returned (runMachineAsScript ?libcount ?procx
      (Obj [(''machine'', Obj []), (''args'', Arr [Str ''valueOf''])])) = Inr \<lparr>configuration = [(''valueOf'', Str ''x'')], on_error = error_exit,
         on_success = success_exit (Obj []), telltale = ''machine-as-script''\<rparr>"
    by (simp add: returned_run [OF select_machine_with_args b'])
  from a ra b rb show ?thesis by blast
qed

text \<open>
  C4. When \<^verbatim>\<open>opts.args\<close> is the array \<open>names\<close> and \<^verbatim>\<open>yargs.argv._\<close> the array
  \<open>toks\<close>, then for every index \<open>N\<close> of both: the iteration \<open>N\<close> of the loop of lines
  161-163 leaves the configuration with the \<open>N\<close>th token under the \<open>N\<close>th name, whatever
  the flags and the environment had put there; the loop is the last step before the
  coercion, and the configuration that enters the coercion holds the \<open>N\<close>th token under
  that name unless the same name stands again later in the list. In every case the name
  ends with the positional value of one of its occurrences at or after \<open>N\<close>.
\<close>

theorem positional_names_override:
  assumes "js_get opts ''args'' = Arr names" "lookup argv ''_'' = Arr toks"
    and "N < length names" "N < length toks"
  shows "\<exists>c1 cfg.
      supply_positional (Arr toks) (take (Suc N) names) 0 (named_configuration ev ns argv ins) =
          Inr c1
      \<and> map_of c1 (to_string (names ! N)) = Some (toks ! N)
      \<and> inputConfiguration ev ns argv opts ins = Inr cfg
      \<and> (to_string (names ! N) \<notin> to_string ` set (drop (Suc N) names)
           \<longrightarrow> map_of cfg (to_string (names ! N)) = Some (toks ! N))
      \<and> (\<exists>M. N \<le> M \<and> M < length names \<and> to_string (names ! M) =
          to_string (names ! N)
           \<and> map_of cfg (to_string (names ! N)) = Some (if M < length toks then toks ! M else
               Undefined))"
proof -
  let ?c = "named_configuration ev ns argv ins"
  let ?k = "to_string (names ! N)"
  from supply_positional_step [OF assms(3), of toks ?c] assms(4) obtain c1 where
    c1: "supply_positional (Arr toks) (take (Suc N) names) 0 ?c = Inr c1"
    and v1: "map_of c1 ?k = Some (toks ! N)"
    and rest: "supply_positional (Arr toks) names 0 ?c
                 = supply_positional (Arr toks) (drop (Suc N) names) (Suc N) c1"
    by auto
  obtain cfg where cfg: "supply_positional (Arr toks) (drop (Suc N) names) (Suc N) c1 = Inr cfg"
    using supply_positional_Arr by blast
  have ic: "inputConfiguration ev ns argv opts ins = Inr cfg"
    using assms(1,2) rest cfg by (simp add: inputConfiguration_def)
  have a: "?k \<notin> to_string ` set (drop (Suc N) names) \<longrightarrow> map_of cfg ?k = Some
      (toks ! N)"
    using supply_positional_other [OF cfg] v1 by simp
  have b: "\<exists>M. N \<le> M \<and> M < length names \<and> to_string (names ! M) = ?k
           \<and> map_of cfg ?k = Some (if M < length toks then toks ! M else Undefined)"
    using supply_positional_last [OF cfg, of ?k]
  proof
    assume "?k \<notin> to_string ` set (drop (Suc N) names) \<and> map_of cfg ?k = map_of c1 ?k"
    with v1 assms(3,4) show ?thesis by (intro exI [of _ N]) simp
  next
    assume "\<exists>M<length (drop (Suc N) names). to_string (drop (Suc N) names ! M) = ?k
        \<and> map_of cfg ?k = Some (if Suc N + M < length toks then toks ! (Suc N + M) else
            Undefined)"
    then obtain M where "M < length (drop (Suc N) names)" "to_string (drop (Suc N) names ! M) =
        ?k"
      "map_of cfg ?k = Some (if Suc N + M < length toks then toks ! (Suc N + M) else Undefined)"
      by blast
    then show ?thesis by (intro exI [of _ "Suc N + M"]) (simp add: add.commute)
  qed
  from c1 v1 ic a b show ?thesis by blast
qed

theorem positional_names_override_witness:
  "map_of (named_configuration (\<lambda>n. if n = ''___second'' then Some ''y'' else None)
      ''___'' [(''_'', Arr [Str ''a'', Str ''b'']), (''first'', Str ''x''), (''$0'', Str
      ''script.js'')] [(''first'', \<lparr>example = Str ''abc'', description = None, friendlyName
      = None\<rparr>), (''second'', \<lparr>example = Str ''abc'', description = None,
      friendlyName = None\<rparr>)]) ''first'' = Some (Str ''x'')
   \<and> map_of (named_configuration (\<lambda>n. if n = ''___second'' then Some ''y'' else None)
       ''___'' [(''_'', Arr [Str ''a'', Str ''b'']), (''first'', Str ''x''), (''$0'', Str
       ''script.js'')] [(''first'', \<lparr>example = Str ''abc'', description = None,
       friendlyName = None\<rparr>), (''second'', \<lparr>example = Str ''abc'', description =
       None, friendlyName = None\<rparr>)]) ''second'' = Some (Str ''y'')
   \<and> inputConfiguration (\<lambda>n. if n = ''___second'' then Some ''y'' else None) ''___''
       [(''_'', Arr [Str ''a'', Str ''b'']), (''first'', Str ''x''), (''$0'', Str ''script.js'')]
       (Obj [(''args'', Arr [Str ''first'', Str ''second''])]) [(''first'', \<lparr>example = Str
       ''abc'', description = None, friendlyName = None\<rparr>), (''second'', \<lparr>example =
       Str ''abc'', description = None, friendlyName = None\<rparr>)]
       = Inr [(''first'', Str ''a''), (''second'', Str ''b''), (''args'', Arr [Str ''a'', Str
           ''b''])]"
proof -
  let ?opts = "(Obj [(''args'', Arr [Str ''first'', Str ''second''])])"
  let ?cfg = "[(''first'', Str ''a''), (''second'', Str ''b''), (''args'', Arr [Str ''a'', Str
      ''b''])]"
  have a: "js_get ?opts ''args'' = Arr [Str ''first'', Str ''second'']"
    by (simp add: js_get_def lookup_def)
  have p: "lookup [(''_'', Arr [Str ''a'', Str ''b'']), (''first'', Str ''x''), (''$0'', Str
      ''script.js'')] ''_'' = Arr [Str ''a'', Str ''b'']"
    by (simp add: lookup_def)
  have n: "(0::nat) < length [Str ''first'', Str ''second'']" "(0::nat) < length [Str ''a'', Str
      ''b'']"
    by simp_all
  from positional_names_override [OF a p n, of "(\<lambda>n. if n = ''___second'' then Some ''y''
      else None)" "''___''" "[(''first'', \<lparr>example = Str ''abc'', description = None,
      friendlyName = None\<rparr>), (''second'', \<lparr>example = Str ''abc'', description =
      None, friendlyName = None\<rparr>)]"]
  obtain cfg where c: "inputConfiguration (\<lambda>n. if n = ''___second'' then Some ''y'' else
      None) ''___'' [(''_'', Arr [Str ''a'', Str ''b'']), (''first'', Str ''x''), (''$0'', Str
      ''script.js'')] ?opts [(''first'', \<lparr>example = Str ''abc'', description = None,
      friendlyName = None\<rparr>), (''second'', \<lparr>example = Str ''abc'', description =
      None, friendlyName = None\<rparr>)] = Inr cfg"
    and f: "map_of cfg ''first'' = Some (Str ''a'')"
    by auto
  have named: "named_configuration (\<lambda>n. if n = ''___second'' then Some ''y'' else None)
      ''___'' [(''_'', Arr [Str ''a'', Str ''b'']), (''first'', Str ''x''), (''$0'', Str
      ''script.js'')] [(''first'', \<lparr>example = Str ''abc'', description = None, friendlyName
      = None\<rparr>), (''second'', \<lparr>example = Str ''abc'', description = None,
      friendlyName = None\<rparr>)]
      = [(''first'', Str ''x''), (''second'', Str ''y''), (''args'', Arr [Str ''a'', Str ''b''])]"
    by (simp add: named_configuration_def include_args_def isArray_def lookup_def cli_options_def
        lodash_extend_def)
  have e: "inputConfiguration (\<lambda>n. if n = ''___second'' then Some ''y'' else None) ''___''
      [(''_'', Arr [Str ''a'', Str ''b'']), (''first'', Str ''x''), (''$0'', Str ''script.js'')]
      ?opts [(''first'', \<lparr>example = Str ''abc'', description = None, friendlyName =
      None\<rparr>), (''second'', \<lparr>example = Str ''abc'', description = None, friendlyName
      = None\<rparr>)] = Inr ?cfg"
    using a p by (simp add: inputConfiguration_def named)
  from named e c f show ?thesis by simp
qed

text \<open>
  C5. Of the declared inputs whose names start with the letter \<open>c\<close>, the first one in
  declaration order (index \<open>i\<close>) is registered as \<^verbatim>\<open>-c, --name\<close>; every later one is
  registered with its long flag \<^verbatim>\<open>--name\<close> only; and \<^verbatim>\<open>-c\<close> is in
  \<^verbatim>\<open>shortcutsSoFar\<close> after every later iteration of the loop.
\<close>

theorem first_input_claims_shortcut:
  assumes "i < length ins" "fst (ins ! i) = c # r"
    and "\<forall>m<i. \<forall>r'. fst (ins ! m) \<noteq> c # r'"
  shows "fst (fst (register_options lc ins []) ! i) = [CHR ''-'', c] @ '', --'' @ fst (ins ! i)
       \<and> (\<forall>j. i < j \<and> j < length ins \<and> (\<exists>r'. fst (ins ! j) = c # r')
             \<longrightarrow> fst (fst (register_options lc ins []) ! j) = ''--'' @ fst (ins ! j))
       \<and> (\<forall>n. i < n \<and> n \<le> length ins
             \<longrightarrow> [CHR ''-'', c] \<in> set (snd (register_options lc (take n ins) [])))"
proof (intro conjI allI impI)
  have "[CHR ''-'', c] \<notin> set (snd (register_options lc (take i ins) []))"
  proof
    assume "[CHR ''-'', c] \<in> set (snd (register_options lc (take i ins) []))"
    then obtain nm where nm: "nm \<in> fst ` set (take i ins)"
      and eq: "[CHR ''-'', c] = ''-'' @ (case nm of [] \<Rightarrow> ''undefined'' | c # cs \<Rightarrow> [c])"
      unfolding shortcuts_register_options by auto
    from nm obtain m where m: "m < i" "m < length ins" "nm = fst (ins ! m)"
      by (auto simp: in_set_conv_nth)
    from eq obtain r' where "nm = c # r'" by (cases nm) auto
    with m assms(3) show False by metis
  qed
  then show "fst (fst (register_options lc ins []) ! i) = [CHR ''-'', c] @ '', --'' @ fst (ins ! i)"
    using assms(1,2) by (simp add: nth_register_options optShortcut_def optUsage_def Let_def)
next
  fix n assume n: "i < n \<and> n \<le> length ins"
  then have "fst (ins ! i) \<in> fst ` set (take n ins)"
    using assms(1) by (force simp: in_set_conv_nth)
  then show "[CHR ''-'', c] \<in> set (snd (register_options lc (take n ins) []))"
    unfolding shortcuts_register_options using assms(2) by force
next
  fix j assume j: "i < j \<and> j < length ins \<and> (\<exists>r'. fst (ins ! j) = c # r')"
  then obtain r' where r': "fst (ins ! j) = c # r'" by blast
  from j have "fst (ins ! i) \<in> fst ` set (take j ins)"
    by (force simp: in_set_conv_nth)
  then have "[CHR ''-'', c] \<in> set (snd (register_options lc (take j ins) []))"
    unfolding shortcuts_register_options using assms(2) by force
  then show "fst (fst (register_options lc ins []) ! j) = ''--'' @ fst (ins ! j)"
    using j r' by (simp add: nth_register_options optShortcut_def optUsage_def Let_def)
qed

theorem first_input_claims_shortcut_witness:
  "fst (fst (register_options id
       [(''path'', \<lparr>example = Str ''/tmp'', description = Some ''The path'', friendlyName = None\<rparr>),
        (''quiet'', \<lparr>example = Bool True, description = None, friendlyName = None\<rparr>),
        (''port'', \<lparr>example = Num 1, description = None, friendlyName = Some ''Port''\<rparr>)] []) ! 0)
     = ''-p, --path''
   \<and> fst (fst (register_options id
       [(''path'', \<lparr>example = Str ''/tmp'', description = Some ''The path'', friendlyName = None\<rparr>),
        (''quiet'', \<lparr>example = Bool True, description = None, friendlyName = None\<rparr>),
        (''port'', \<lparr>example = Num 1, description = None, friendlyName = Some ''Port''\<rparr>)] []) ! 2)
     = ''--port''
   \<and> ''-p'' \<in> set (snd (register_options id
       [(''path'', \<lparr>example = Str ''/tmp'', description = Some ''The path'', friendlyName = None\<rparr>),
        (''quiet'', \<lparr>example = Bool True, description = None, friendlyName = None\<rparr>),
        (''port'', \<lparr>example = Num 1, description = None, friendlyName = Some ''Port''\<rparr>)] []))"
proof -
  let ?ins = "[(''path'', \<lparr>example = Str ''/tmp'', description = Some ''The path'', friendlyName = None\<rparr>),
        (''quiet'', \<lparr>example = Bool True, description = None, friendlyName = None\<rparr>),
        (''port'', \<lparr>example = Num 1, description = None, friendlyName = Some ''Port''\<rparr>)]"
  have h: "0 < length ?ins" "fst (?ins ! 0) = CHR ''p'' # ''ath''"
    "\<forall>m<0. \<forall>r'. fst (?ins ! m) \<noteq> CHR ''p'' # r'"
    by simp_all
  note t = first_input_claims_shortcut [OF h, of id]
  from t have a: "fst (fst (register_options id ?ins []) ! 0) = ''-p, --path''"
    by simp
  from t have "0 < (2::nat) \<and> 2 < length ?ins \<and> (\<exists>r'. fst (?ins ! 2) = CHR ''p'' # r')
      \<longrightarrow> fst (fst (register_options id ?ins []) ! 2) = ''--'' @ fst (?ins ! 2)"
    by blast
  then have b: "fst (fst (register_options id ?ins []) ! 2) = ''--port''"
    by simp
  from t have "0 < (3::nat) \<and> 3 \<le> length ?ins
      \<longrightarrow> ''-p'' \<in> set (snd (register_options id (take 3 ?ins) []))"
    by blast
  then have c: "''-p'' \<in> set (snd (register_options id ?ins []))"
    by simp
  from a b c show ?thesis by blast
qed

text \<open>
  C6. The claim: every key of the configuration that is a declared input has its value
  converted to a string and parsed for the type inferred from the input's example. The
  code does not do so when the configuration holds a length under \<^verbatim>\<open>length\<close>, a number
  \<open>w\<close> from \<open>0\<close> up: \<^verbatim>\<open>_.reduce\<close> then visits the indices below \<open>w\<close> only, so
  that a call that returns has stored nothing under any other key, declared or not; with
  \<^verbatim>\<open>--length 0\<close> the call returns a live machine with an empty configuration.
\<close>

theorem array_like_configuration_not_parsed:
  fixes lib :: "'ty collaborators" and machineDef :: jsval and ins
  defines "ins \<equiv> inputs (wetMachine_of lib machineDef)"
  assumes "select_machine opts0 = (machineDef, opts)"
    and "inputConfiguration (process_env proc) (envVarNamespace opts) (yargs_argv proc) opts ins
           = Inr cfg"
    and "lookup cfg ''length'' = Num w" "0 \<le> sint w"
  shows "(\<forall>live k. returned (runMachineAsScript lib proc opts0) = Inr live
              \<and> k \<notin> (\<lambda>i. num_str (int i)) ` {..<nat (sint w)}
            \<longrightarrow> map_of (configuration live) k = None)
       \<and> (w = 0 \<longrightarrow> returned (runMachineAsScript lib proc opts0) =
              Inr \<lparr>configuration = [], on_error = error_exit,
                   on_success = success_exit (exits (wetMachine_of lib machineDef)),
                   telltale = ''machine-as-script''\<rparr>)"
proof -
  note ret = returned_run [OF assms(2) assms(3) [unfolded ins_def], folded ins_def]
  have 1: "\<forall>live k. returned (runMachineAsScript lib proc opts0) = Inr live
              \<and> k \<notin> (\<lambda>i. num_str (int i)) ` {..<nat (sint w)}
            \<longrightarrow> map_of (configuration live) k = None"
  proof (intro allI impI)
    fix live k
    assume a: "returned (runMachineAsScript lib proc opts0) = Inr live
              \<and> k \<notin> (\<lambda>i. num_str (int i)) ` {..<nat (sint w)}"
    then obtain m where
      m: "coerce_each (parseHuman lib) (infer lib) ins (visited cfg) [] = Inr m"
      and live: "configuration live = m"
      by (auto simp: ret coerce_def split: sum.splits)
    from a have "k \<notin> fst ` set (visited cfg)"
      by (simp add: visited_array_like [OF assms(4,5)])
    with coerce_each_other [OF m, of k] live show "map_of (configuration live) k = None"
      by simp
  qed
  have 2: "w = 0 \<longrightarrow> returned (runMachineAsScript lib proc opts0) =
              Inr \<lparr>configuration = [], on_error = error_exit,
                   on_success = success_exit (exits (wetMachine_of lib machineDef)),
                   telltale = ''machine-as-script''\<rparr>"
    using assms(4) by (simp add: ret coerce_def visited_length_0)
  from 1 2 show ?thesis by blast
qed

theorem array_like_configuration_not_parsed_witness:
  "inputConfiguration (\<lambda>n. None) ''___''
      [(''_'', Arr []), (''length'', Num 0), (''foo'', Str ''x''), (''$0'', Str ''script.js'')]
      (Obj []) [(''length'', \<lparr>example = Num 1, description = None, friendlyName = None\<rparr>),
        (''foo'', \<lparr>example = Str ''abc'', description = None, friendlyName = None\<rparr>)]
     = Inr [(''length'', Num 0), (''foo'', Str ''x''), (''args'', Arr [])]
   \<and> map_of [(''length'', \<lparr>example = Num 1, description = None, friendlyName = None\<rparr>),
        (''foo'', \<lparr>example = Str ''abc'', description = None, friendlyName = None\<rparr>)] ''foo''
     = Some (\<lparr>example = Str ''abc'', description = None, friendlyName = None\<rparr>)
   \<and> returned (runMachineAsScript
       \<lparr>toLowerCase = id,
       wetMachine_of = (\<lambda>m. \<lparr>inputs = [(''length'', \<lparr>example = Num 1, description = None, friendlyName = None\<rparr>),
        (''foo'', \<lparr>example = Str ''abc'', description = None, friendlyName = None\<rparr>)],
         exits = Obj []\<rparr>),
       infer = (\<lambda>v. v), parseHuman = (\<lambda>s t u. Inr (Str s))\<rparr>
       \<lparr>process_env = (\<lambda>n. None),
       yargs_argv = [(''_'', Arr []), (''length'', Num 0), (''foo'', Str ''x''), (''$0'', Str ''script.js'')]\<rparr>
       (Obj [(''machine'', Obj [])]))
     = Inr \<lparr>configuration = [], on_error = error_exit,
         on_success = success_exit (Obj []), telltale = ''machine-as-script''\<rparr>
   \<and> map_of (configuration \<lparr>configuration = [], on_error = error_exit,
         on_success = success_exit (Obj []), telltale = ''machine-as-script''\<rparr>) ''foo'' = None"
proof -
  let ?lib = "\<lparr>toLowerCase = id,
       wetMachine_of = (\<lambda>m. \<lparr>inputs = [(''length'', \<lparr>example = Num 1, description = None, friendlyName = None\<rparr>),
        (''foo'', \<lparr>example = Str ''abc'', description = None, friendlyName = None\<rparr>)],
         exits = Obj []\<rparr>),
       infer = (\<lambda>v. v), parseHuman = (\<lambda>s t u. Inr (Str s))\<rparr>"
  let ?proc = "\<lparr>process_env = (\<lambda>n. None),
       yargs_argv = [(''_'', Arr []), (''length'', Num 0), (''foo'', Str ''x''), (''$0'', Str ''script.js'')]\<rparr>"
  let ?cfg = "[(''length'', Num 0), (''foo'', Str ''x''), (''args'', Arr [])]"
  have c: "inputConfiguration (\<lambda>n. None) ''___''
      [(''_'', Arr []), (''length'', Num 0), (''foo'', Str ''x''), (''$0'', Str ''script.js'')]
      (Obj []) [(''length'', \<lparr>example = Num 1, description = None, friendlyName = None\<rparr>),
        (''foo'', \<lparr>example = Str ''abc'', description = None, friendlyName = None\<rparr>)] = Inr ?cfg"
    by (simp add: inputConfiguration_def named_configuration_def include_args_def isArray_def js_get_def lookup_def cli_options_def lodash_extend_def envVarNamespace_def isString_def)
  then have c': "inputConfiguration (process_env ?proc) (envVarNamespace (Obj []))
      (yargs_argv ?proc) (Obj []) (inputs (wetMachine_of ?lib (Obj []))) = Inr ?cfg"
    by (simp add: envVarNamespace_def js_get_def lookup_def isString_def)
  have l: "lookup ?cfg ''length'' = Num 0" "0 \<le> sint (0 :: 54 word)"
    by (simp_all add: lookup_def)
  note t = array_like_configuration_not_parsed [OF select_machine_example c' l]
  from t have r: "returned (runMachineAsScript ?lib ?proc (Obj [(''machine'', Obj [])]))
      = Inr \<lparr>configuration = [], on_error = error_exit,
         on_success = success_exit (Obj []), telltale = ''machine-as-script''\<rparr>"
    by simp
  have "''foo'' \<notin> (\<lambda>i. num_str (int i)) ` {..<nat (sint (0 :: 54 word))}"
    by simp
  with t r have "map_of (configuration \<lparr>configuration = [], on_error = error_exit,
         on_success = success_exit (Obj []), telltale = ''machine-as-script''\<rparr>) ''foo'' = None"
    by blast
  with c r show ?thesis by simp
qed

text \<open>
  C7. Called with an error (any value but \<^verbatim>\<open>undefined\<close> and \<^verbatim>\<open>null\<close>), the error
  handler prints the red banner \<^verbatim>\<open>Something went wrong:\<close> with \<^verbatim>\<open>console.log\<close> and
  then, with \<^verbatim>\<open>console.error\<close>, the error's \<^verbatim>\<open>stack\<close> in gray when the error has
  one (the code's test is \<^verbatim>\<open>err.stack ? ... : ...\<close>), the raw error otherwise; it
  throws nothing.
\<close>

theorem error_exit_banner_then_trace:
  assumes "err \<noteq> Undefined" "err \<noteq> Null"
  shows "error_exit err =
     ([Log (Red ''Something went wrong:''),
       LogError (if truthy (js_get err ''stack'') then Gray (to_string (js_get err ''stack''))
                 else Raw err)], None)"
  using assms by (cases err) (simp_all add: error_exit_def js_get_def)

theorem error_exit_banner_then_trace_witness:
  "error_exit (Obj [(''message'', Str ''boom''), (''stack'', Str ''Error: boom at fn'')])
     = ([Log (Red ''Something went wrong:''), LogError (Gray ''Error: boom at fn'')], None)
   \<and> error_exit (Obj [(''code'', Str ''E_FAILED'')])
     = ([Log (Red ''Something went wrong:''), LogError (Raw (Obj [(''code'', Str ''E_FAILED'')]))], None)"
  using error_exit_banner_then_trace [of "Obj [(''message'', Str ''boom''), (''stack'', Str ''Error: boom at fn'')]"]
    error_exit_banner_then_trace [of "Obj [(''code'', Str ''E_FAILED'')]"]
  by (simp add: js_get_def lookup_def)

text \<open>
  C8. The namespace of the environment variables is \<^verbatim>\<open>opts.envVarNamespace\<close> when
  that is a string (the empty string included), and the three characters \<^verbatim>\<open>___\<close> in
  every other case. It is read from the options as lines 27-40 leave them, which
  changes nothing for this key.
\<close>

theorem envVarNamespace_default_unless_string:
  "(\<forall>s. js_get opts0 ''envVarNamespace'' = Str s
        \<longrightarrow> envVarNamespace (snd (select_machine opts0)) = s)
   \<and> ((\<forall>s. js_get opts0 ''envVarNamespace'' \<noteq> Str s)
        \<longrightarrow> envVarNamespace (snd (select_machine opts0)) = ''___'')
   \<and> length ''___'' = 3"
  by (auto simp: select_machine_ns split: jsval.splits)

theorem envVarNamespace_default_unless_string_witness:
  "envVarNamespace (snd (select_machine
      (Obj [(''machine'', Obj [(''inputs'', Obj [])]), (''envVarNamespace'', Str ''my_'')]))) = ''my_''
   \<and> envVarNamespace (snd (select_machine (Obj [(''envVarNamespace'', Str '''')]))) = ''''
   \<and> envVarNamespace (snd (select_machine (Obj [(''envVarNamespace'', Num 5)]))) = ''___''
   \<and> envVarNamespace (snd (select_machine (Obj [(''inputs'', Obj [])]))) = ''___''"
  using envVarNamespace_default_unless_string
      [of "Obj [(''machine'', Obj [(''inputs'', Obj [])]), (''envVarNamespace'', Str ''my_'')]"]
    envVarNamespace_default_unless_string [of "Obj [(''envVarNamespace'', Str '''')]"]
    envVarNamespace_default_unless_string [of "Obj [(''envVarNamespace'', Num 5)]"]
    envVarNamespace_default_unless_string [of "Obj [(''inputs'', Obj [])]"]
  by (simp add: js_get_def lookup_def)

text \<open>
  C9. The claim: a name of \<^verbatim>\<open>opts.args\<close> past the last positional token is assigned
  \<^verbatim>\<open>undefined\<close>, which is then parsed from the string \<^verbatim>\<open>undefined\<close>, so that the
  input is configured. The assignment holds: the configuration that enters the coercion
  has \<^verbatim>\<open>undefined\<close> under the name. But when that configuration holds the number
  \<open>0\<close> under \<^verbatim>\<open>length\<close>, \<^verbatim>\<open>_.reduce\<close> visits nothing, and the live machine is
  returned with an empty configuration: the input is left unconfigured.
\<close>

theorem surplus_positional_name_left_unconfigured:
  fixes lib :: "'ty collaborators" and machineDef :: jsval and ins
  defines "ins \<equiv> inputs (wetMachine_of lib machineDef)"
  assumes "select_machine opts0 = (machineDef, opts)"
    and "js_get opts ''args'' = Arr names" "lookup (yargs_argv proc) ''_'' = Arr toks"
    and "length toks \<le> N" "N < length names"
    and "inputConfiguration (process_env proc) (envVarNamespace opts) (yargs_argv proc) opts ins
           = Inr cfg"
    and "lookup cfg ''length'' = Num 0"
  shows "map_of cfg (to_string (names ! N)) = Some Undefined
       \<and> returned (runMachineAsScript lib proc opts0) =
           Inr \<lparr>configuration = [], on_error = error_exit,
                on_success = success_exit (exits (wetMachine_of lib machineDef)),
                telltale = ''machine-as-script''\<rparr>"
proof -
  let ?c = "named_configuration (process_env proc) (envVarNamespace opts) (yargs_argv proc) ins"
  let ?k = "to_string (names ! N)"
  from supply_positional_step [OF assms(6), of toks ?c] assms(5) obtain c1 where
    v1: "map_of c1 ?k = Some Undefined"
    and rest: "supply_positional (Arr toks) names 0 ?c
                 = supply_positional (Arr toks) (drop (Suc N) names) (Suc N) c1"
    by auto
  have "supply_positional (Arr toks) (drop (Suc N) names) (Suc N) c1 = Inr cfg"
    using assms(3,4,7) rest by (simp add: inputConfiguration_def)
  from supply_positional_surplus [OF this _ v1] assms(5)
  have u: "map_of cfg ?k = Some Undefined" by simp
  note ret = returned_run [OF assms(2) assms(7) [unfolded ins_def], folded ins_def]
  have "returned (runMachineAsScript lib proc opts0) =
      Inr \<lparr>configuration = [], on_error = error_exit,
           on_success = success_exit (exits (wetMachine_of lib machineDef)),
           telltale = ''machine-as-script''\<rparr>"
    using assms(8) by (simp add: ret coerce_def visited_length_0)
  with u show ?thesis by simp
qed

theorem surplus_positional_name_left_unconfigured_witness:
  "inputConfiguration (\<lambda>n. None) ''___''
      [(''_'', Arr [Str ''a'']), (''length'', Num 0), (''$0'', Str ''script.js'')]
      (Obj [(''args'', Arr [Str ''first'', Str ''second''])]) [(''length'', \<lparr>example = Num 1, description = None, friendlyName = None\<rparr>),
        (''first'', \<lparr>example = Str ''abc'', description = None, friendlyName = None\<rparr>),
        (''second'', \<lparr>example = Str ''abc'', description = None, friendlyName = None\<rparr>)]
     = Inr [(''length'', Num 0), (''args'', Arr [Str ''a'']), (''first'', Str ''a''),
            (''second'', Undefined)]
   \<and> map_of [(''length'', \<lparr>example = Num 1, description = None, friendlyName = None\<rparr>),
        (''first'', \<lparr>example = Str ''abc'', description = None, friendlyName = None\<rparr>),
        (''second'', \<lparr>example = Str ''abc'', description = None, friendlyName = None\<rparr>)] ''second''
     = Some (\<lparr>example = Str ''abc'', description = None, friendlyName = None\<rparr>)
   \<and> returned (runMachineAsScript
       \<lparr>toLowerCase = id,
       wetMachine_of = (\<lambda>m. \<lparr>inputs = [(''length'', \<lparr>example = Num 1, description = None, friendlyName = None\<rparr>),
        (''first'', \<lparr>example = Str ''abc'', description = None, friendlyName = None\<rparr>),
        (''second'', \<lparr>example = Str ''abc'', description = None, friendlyName = None\<rparr>)],
         exits = Obj []\<rparr>),
       infer = (\<lambda>v. v), parseHuman = (\<lambda>s t u. Inr (Str s))\<rparr>
       \<lparr>process_env = (\<lambda>n. None),
       yargs_argv = [(''_'', Arr [Str ''a'']), (''length'', Num 0), (''$0'', Str ''script.js'')]\<rparr>
       (Obj [(''machine'', Obj []), (''args'', Arr [Str ''first'', Str ''second''])]))
     = Inr \<lparr>configuration = [], on_error = error_exit,
         on_success = success_exit (Obj []), telltale = ''machine-as-script''\<rparr>"
proof -
  let ?lib = "\<lparr>toLowerCase = id,
       wetMachine_of = (\<lambda>m. \<lparr>inputs = [(''length'', \<lparr>example = Num 1, description = None, friendlyName = None\<rparr>),
        (''first'', \<lparr>example = Str ''abc'', description = None, friendlyName = None\<rparr>),
        (''second'', \<lparr>example = Str ''abc'', description = None, friendlyName = None\<rparr>)],
         exits = Obj []\<rparr>),
       infer = (\<lambda>v. v), parseHuman = (\<lambda>s t u. Inr (Str s))\<rparr>"
  let ?proc = "\<lparr>process_env = (\<lambda>n. None),
       yargs_argv = [(''_'', Arr [Str ''a'']), (''length'', Num 0), (''$0'', Str ''script.js'')]\<rparr>"
  let ?opts = "Obj [(''args'', Arr [Str ''first'', Str ''second''])]"
  let ?cfg = "[(''length'', Num 0), (''args'', Arr [Str ''a'']), (''first'', Str ''a''),
      (''second'', Undefined)]"
  have c: "inputConfiguration (\<lambda>n. None) ''___''
      [(''_'', Arr [Str ''a'']), (''length'', Num 0), (''$0'', Str ''script.js'')]
      ?opts [(''length'', \<lparr>example = Num 1, description = None, friendlyName = None\<rparr>),
        (''first'', \<lparr>example = Str ''abc'', description = None, friendlyName = None\<rparr>),
        (''second'', \<lparr>example = Str ''abc'', description = None, friendlyName = None\<rparr>)] = Inr ?cfg"
    by (simp add: inputConfiguration_def named_configuration_def include_args_def isArray_def js_get_def lookup_def cli_options_def lodash_extend_def envVarNamespace_def isString_def)
  then have c': "inputConfiguration (process_env ?proc) (envVarNamespace ?opts)
      (yargs_argv ?proc) ?opts (inputs (wetMachine_of ?lib (Obj []))) = Inr ?cfg"
    by (simp add: envVarNamespace_def js_get_def lookup_def isString_def)
  have a: "js_get ?opts ''args'' = Arr [Str ''first'', Str ''second'']"
    by (simp add: js_get_def lookup_def)
  have p: "lookup (yargs_argv ?proc) ''_'' = Arr [Str ''a'']"
    by (simp add: lookup_def)
  have n: "length [Str ''a''] \<le> (1::nat)" "(1::nat) < length [Str ''first'', Str ''second'']"
    by simp_all
  have l: "lookup ?cfg ''length'' = Num 0"
    by (simp add: lookup_def)
  from surplus_positional_name_left_unconfigured [OF select_machine_with_args a p n c' l]
  have "returned (runMachineAsScript ?lib ?proc
        (Obj [(''machine'', Obj []), (''args'', Arr [Str ''first'', Str ''second''])]))
      = Inr \<lparr>configuration = [], on_error = error_exit,
         on_success = success_exit (Obj []), telltale = ''machine-as-script''\<rparr>"
    by simp
  with c show ?thesis by simp
qed

text \<open>
  C10. When the caller's options have a truthy \<^verbatim>\<open>machine\<close>, that value is the machine
  definition, and the options object the caller is left with is the same object without
  the key \<^verbatim>\<open>machine\<close>: the other keys keep their values and their order.
\<close>

theorem machine_key_deleted_from_opts:
  assumes "truthy (lookup kvs ''machine'')"
  shows "select_machine (Obj kvs) = (lookup kvs ''machine'', Obj (AList.delete ''machine'' kvs))
       \<and> opts_after (runMachineAsScript lib proc (Obj kvs)) = Obj (AList.delete ''machine'' kvs)
       \<and> AList.delete ''machine'' kvs = filter (\<lambda>p. fst p \<noteq> ''machine'') kvs
       \<and> map_of (AList.delete ''machine'' kvs) ''machine'' = None
       \<and> (\<forall>k. k \<noteq> ''machine'' \<longrightarrow> map_of (AList.delete ''machine'' kvs) k = map_of kvs k)"
proof -
  have s: "select_machine (Obj kvs) = (lookup kvs ''machine'', Obj (AList.delete ''machine'' kvs))"
    using assms by (simp add: select_machine_def js_get_def delete_prop_def Let_def)
  have f: "AList.delete ''machine'' kvs = filter (\<lambda>p. fst p \<noteq> ''machine'') kvs"
    by (simp add: AList.delete_eq case_prod_beta' eq_commute)
  have m: "map_of (AList.delete ''machine'' kvs) ''machine'' = None
      \<and> (\<forall>k. k \<noteq> ''machine'' \<longrightarrow> map_of (AList.delete ''machine'' kvs) k = map_of kvs k)"
    by (simp add: AList.delete_conv')
  have o: "opts_after (runMachineAsScript lib proc (Obj kvs)) = Obj (AList.delete ''machine'' kvs)"
    by (simp only: opts_after_run s snd_conv)
  from s o f m show ?thesis by blast
qed

theorem machine_key_deleted_from_opts_witness:
  "opts_after (runMachineAsScript
      \<lparr>toLowerCase = id,
       wetMachine_of = (\<lambda>m. \<lparr>inputs = [], exits = Undefined\<rparr>),
       infer = (\<lambda>v. v),
       parseHuman = (\<lambda>s t u. Inr (Str s))\<rparr>
      \<lparr>process_env = (\<lambda>n. None), yargs_argv = []\<rparr>
      (Obj [(''envVarNamespace'', Str ''my_''), (''machine'', Obj [(''inputs'', Obj [])]),
            (''args'', Arr [Str ''first'', Str ''second''])]))
    = Obj [(''envVarNamespace'', Str ''my_''), (''args'', Arr [Str ''first'', Str ''second''])]"
  using machine_key_deleted_from_opts
    [of "[(''envVarNamespace'', Str ''my_''), (''machine'', Obj [(''inputs'', Obj [])]),
          (''args'', Arr [Str ''first'', Str ''second''])]"
      "\<lparr>toLowerCase = id,
       wetMachine_of = (\<lambda>m. \<lparr>inputs = [], exits = Undefined\<rparr>),
       infer = (\<lambda>v. v),
       parseHuman = (\<lambda>s t u. Inr (Str s))\<rparr>"
      "\<lparr>process_env = (\<lambda>n. None), yargs_argv = []\<rparr>"]
  by (simp add: lookup_def)

end
